theory Spec2Isabelle
  imports Complex_Main "HOL-Library.AList"
begin

section \<open>The vector store (app/services/vector\_store.py)\<close>

text \<open>
  The store keeps four fields: the rows of the flat L2 index, the parallel list of
  per-vector metadata (an entry may be absent), the dictionary from document id to the
  positions recorded for it, and the soft-delete counter. The dictionary is an
  association list with distinct keys, in insertion order, as a Python dict is.
  The embedding model is a parameter \<open>encode\<close> of every operation that encodes text,
  a total function from texts to vectors; vectors are lists of reals (the rounding of
  32-bit floats is not modelled).
\<close>

type_synonym vec = "real list"

text \<open>
  The exceptions that reach the caller: the assertion of the index library, the
  RuntimeError raised by the generate node, and the error of the graph library when a
  run exceeds its step limit.
\<close>

datatype error = AssertionError | RuntimeError string | GraphRecursionError

record chunk_meta =
  doc_id :: string
  doc_name :: string
  chunk_index :: nat
  chunk_text :: string
  deleted :: bool

record vector_store =
  index :: "vec list"
  meta :: "chunk_meta option list"
  doc_map :: "(string \<times> nat list) list"
  del_count :: int

text \<open>A search result is the metadata of a vector together with its distance score.\<close>

type_synonym hit = "chunk_meta \<times> real"

definition empty_store :: vector_store where
  "empty_store = \<lparr>index = [], meta = [], doc_map = [], del_count = 0\<rparr>"

definition ntotal :: "vector_store \<Rightarrow> nat" where
  "ntotal s = length (index s)"

text \<open>\<open>doc_positions s d\<close> is \<open>_doc_map.get(d, [])\<close>.\<close>

definition doc_positions :: "vector_store \<Rightarrow> string \<Rightarrow> nat list" where
  "doc_positions s d = (case map_of (doc_map s) d of None \<Rightarrow> [] | Some ps \<Rightarrow> ps)"

subsection \<open>add\_chunks\<close>

definition pad_meta :: "chunk_meta option list \<Rightarrow> nat \<Rightarrow> chunk_meta option list" where
  "pad_meta m n = m @ replicate (n - length m) None"

definition set_meta ::
  "string \<Rightarrow> string \<Rightarrow> nat \<times> string \<times> nat \<Rightarrow> chunk_meta option list \<Rightarrow> chunk_meta option list"
where
  "set_meta d dn = (\<lambda>(i, chunk, pos) m.
     m[pos := Some \<lparr>doc_id = d, doc_name = dn, chunk_index = i, chunk_text = chunk,
                    deleted = False\<rparr>])"

definition add_chunks ::
  "(string \<Rightarrow> vec) \<Rightarrow> vector_store \<Rightarrow> string \<Rightarrow> string \<Rightarrow> string list \<Rightarrow> vector_store \<times> nat"
where
  "add_chunks encode s d dn chunks =
     (if chunks = [] then (s, 0)
      else
        let embs = map encode chunks;
            start = ntotal s;
            positions = [start ..< start + length chunks];
            dm = AList.update d positions (doc_map s);
            padded = pad_meta (meta s) (start + length chunks);
            filled = fold (set_meta d dn) (enumerate 0 (zip chunks positions)) padded
        in (s\<lparr>index := index s @ embs, meta := filled, doc_map := dm\<rparr>, length chunks))"

subsection \<open>delete\_doc\<close>

definition mark_deleted :: "nat \<Rightarrow> chunk_meta option list \<times> int \<Rightarrow> chunk_meta option list \<times> int" where
  "mark_deleted pos = (\<lambda>(m, dc).
     if pos < length m then
       (case m ! pos of
          None \<Rightarrow> (m, dc)
        | Some r \<Rightarrow> (m[pos := Some (r\<lparr>deleted := True\<rparr>)], dc + 1))
     else (m, dc))"

definition delete_doc :: "vector_store \<Rightarrow> string \<Rightarrow> vector_store" where
  "delete_doc s d =
     (let popped = doc_positions s d;
          dm = AList.delete d (doc_map s);
          (m, dc) = fold mark_deleted popped (meta s, del_count s)
      in s\<lparr>meta := m, doc_map := dm, del_count := dc\<rparr>)"

subsection \<open>rebuild\_index\<close>

definition alive_of :: "chunk_meta option list \<Rightarrow> chunk_meta list" where
  "alive_of ms = List.map_filter (\<lambda>m. case m of None \<Rightarrow> None
                                   | Some r \<Rightarrow> if deleted r then None else Some r) ms"

text \<open>\<open>_doc_map.setdefault(m["doc_id"], []).append(pos)\<close>\<close>

definition setdefault_append :: "nat \<times> chunk_meta \<Rightarrow> (string \<times> nat list) list \<Rightarrow> (string \<times> nat list) list" where
  "setdefault_append = (\<lambda>(pos, m) dm.
     AList.update (doc_id m)
       ((case map_of dm (doc_id m) of None \<Rightarrow> [] | Some ps \<Rightarrow> ps) @ [pos]) dm)"

definition rebuild_index :: "(string \<Rightarrow> vec) \<Rightarrow> vector_store \<Rightarrow> vector_store \<times> nat" where
  "rebuild_index encode s =
     (let alive = alive_of (meta s) in
      if alive = [] then (\<lparr>index = [], meta = [], doc_map = [], del_count = 0\<rparr>, 0)
      else
        let texts = map chunk_text alive;
            embs = map encode texts;
            dm = fold setdefault_append (enumerate 0 alive) []
        in (\<lparr>index = embs, meta = map Some alive, doc_map = dm, del_count = 0\<rparr>,
            length embs))"

subsection \<open>search\<close>

definition l2sq :: "vec \<Rightarrow> vec \<Rightarrow> real" where
  "l2sq q v = sum_list (map (\<lambda>(a, b). (a - b)\<^sup>2) (zip q v))"

text \<open>
  Modelled from the spec: the flat index of the vector library is not part of the
  repository. The spec describes it as exact nearest-neighbour search by squared
  Euclidean distance over all stored rows, nearest first; \<open>nearest rows q n\<close> is
  the list of the \<open>n\<close> nearest rows as pairs of distance and position, the result of
  the library's \<open>index_search\<close>. Rows at equal
  distance are listed by position (the sort is stable). The library refuses a request
  for fewer than one neighbour: its search asserts that the count is positive, and the
  assertion fails.
\<close>

definition nearest :: "vec list \<Rightarrow> vec \<Rightarrow> nat \<Rightarrow> (real \<times> int) list" where
  "nearest rows q n =
     take n (sort_key fst (map (\<lambda>i. (l2sq q (rows ! i), int i)) [0 ..< length rows]))"

definition index_search :: "vec list \<Rightarrow> vec \<Rightarrow> int \<Rightarrow> error + (real \<times> int) list" where
  "index_search rows q n = (if n \<le> 0 then Inl AssertionError else Inr (nearest rows q (nat n)))"

text \<open>
  The loop of \<open>search\<close> over the pairs of distance and position: \<open>continue\<close> on a
  position outside the metadata list, on an absent entry and on a deleted one;
  \<open>break\<close> once \<open>k\<close> results are collected.
\<close>

fun search_loop :: "chunk_meta option list \<Rightarrow> int \<Rightarrow> (real \<times> int) list \<Rightarrow> hit list \<Rightarrow> hit list" where
  "search_loop ms k [] results = results"
| "search_loop ms k ((dst, idx) # rest) results =
     (if idx < 0 \<or> idx \<ge> int (length ms) then search_loop ms k rest results
      else
        (case ms ! nat idx of
           None \<Rightarrow> search_loop ms k rest results
         | Some m \<Rightarrow>
             if deleted m then search_loop ms k rest results
             else
               let results' = results @ [(m, dst)]
               in if int (length results') \<ge> k then results'
                  else search_loop ms k rest results'))"

text \<open>
  \<open>k\<close> is an integer, as in the source, and is not checked there: on a store with
  at least one row, \<open>min (k * 4) ntotal\<close> is handed to the index as it is, and the
  exception of the index for \<open>k \<le> 0\<close> leaves \<open>search\<close>.
\<close>

definition search :: "(string \<Rightarrow> vec) \<Rightarrow> vector_store \<Rightarrow> string \<Rightarrow> int \<Rightarrow> error + hit list" where
  "search encode s query_text k =
     (if ntotal s = 0 then Inr []
      else
        let q = encode query_text;
            fetch_k = min (k * 4) (int (ntotal s))
        in (case index_search (index s) q fetch_k of
              Inl err \<Rightarrow> Inl err
            | Inr found \<Rightarrow> Inr (search_loop (meta s) k found [])))"

subsection \<open>Loading the persisted state\<close>

text \<open>
  Each of the two files of the store directory is missing, present but unreadable
  (reading it raises), or present with a stored value. \<open>load\<close> follows the order of
  the statements inside the \<open>try\<close> block: the index is assigned as soon as it is read,
  before the metadata file is opened; an exception leaves the assignments made so far.
\<close>

datatype 'a artifact = Missing | Corrupt | Stored 'a

type_synonym meta_triple = "chunk_meta option list \<times> (string \<times> nat list) list \<times> int"

definition load :: "vec list artifact \<Rightarrow> meta_triple artifact \<Rightarrow> vector_store \<Rightarrow> vector_store" where
  "load idx_file meta_file s =
     (if idx_file \<noteq> Missing \<and> meta_file \<noteq> Missing then
        (case idx_file of
           Stored rows \<Rightarrow>
             (let s1 = s\<lparr>index := rows\<rparr> in
              case meta_file of
                Stored (m, dm, dc) \<Rightarrow> s1\<lparr>meta := m, doc_map := dm, del_count := dc\<rparr>
              | _ \<Rightarrow> s1)
         | _ \<Rightarrow> s)
      else s)"

text \<open>The constructor: the four fields are initialised empty, then \<open>load\<close> runs.\<close>

definition init :: "vec list artifact \<Rightarrow> meta_triple artifact \<Rightarrow> vector_store" where
  "init idx_file meta_file = load idx_file meta_file empty_store"

section \<open>The retrieval pipeline (app/services/rag\_pipeline.py)\<close>

subsection \<open>Texts\<close>

text \<open>
  Texts are lists of characters with code points below 256. The string methods used by
  the pipeline are written out on these code points: \<open>strip\<close> removes leading and
  trailing whitespace, \<open>lower\<close> maps the upper-case letters to lower case,
  \<open>split_on\<close> is \<open>str.split\<close> with a one-character separator, \<open>isdigit\<close> accepts
  the decimal digits and the three superscript digits, and \<open>py_int\<close> is \<open>int\<close> on
  a text that passed \<open>isdigit\<close>: the value of a text of decimal digits, and a
  ValueError (here \<open>None\<close>) when a superscript digit occurs or when the text has more
  digits than the interpreter converts, 4300 unless reconfigured.
\<close>

definition isspace :: "char \<Rightarrow> bool" where
  "isspace c = ((of_char c :: nat) \<in> {9, 10, 11, 12, 13, 28, 29, 30, 31, 32, 133, 160})"

definition strip :: "string \<Rightarrow> string" where
  "strip t = rev (dropWhile isspace (rev (dropWhile isspace t)))"

definition lower_char :: "char \<Rightarrow> char" where
  "lower_char c =
     (let n = (of_char c :: nat)
      in if (65 \<le> n \<and> n \<le> 90) \<or> (192 \<le> n \<and> n \<le> 222 \<and> n \<noteq> 215)
         then char_of (n + 32) else c)"

definition lower :: "string \<Rightarrow> string" where
  "lower t = map lower_char t"

fun split_on :: "char \<Rightarrow> string \<Rightarrow> string list" where
  "split_on sep [] = [[]]"
| "split_on sep (c # cs) =
     (if c = sep then [] # split_on sep cs
      else (case split_on sep cs of
              [] \<Rightarrow> [[c]]
            | w # ws \<Rightarrow> (c # w) # ws))"

definition isdecimal_char :: "char \<Rightarrow> bool" where
  "isdecimal_char c = (48 \<le> (of_char c :: nat) \<and> (of_char c :: nat) \<le> 57)"

definition isdigit_char :: "char \<Rightarrow> bool" where
  "isdigit_char c = (isdecimal_char c \<or> (of_char c :: nat) \<in> {178, 179, 185})"

definition isdigit :: "string \<Rightarrow> bool" where
  "isdigit t = (t \<noteq> [] \<and> list_all isdigit_char t)"

definition int_max_str_digits :: nat where
  "int_max_str_digits = 4300"

definition py_int :: "string \<Rightarrow> nat option" where
  "py_int t =
     (if t \<noteq> [] \<and> list_all isdecimal_char t \<and> length t \<le> int_max_str_digits
      then Some (foldl (\<lambda>a c. 10 * a + (of_char c - 48)) 0 t)
      else None)"

fun str_nat :: "nat \<Rightarrow> string" where
  "str_nat n =
     (if n < 10 then [char_of (48 + n)]
      else str_nat (n div 10) @ [char_of (48 + n mod 10)])"

fun join :: "string \<Rightarrow> string list \<Rightarrow> string" where
  "join sep [] = []"
| "join sep [t] = t"
| "join sep (t # u # us) = t @ sep @ join sep (u # us)"

definition nl :: string where
  "nl = [CHR 0x0A]"

subsection \<open>State, settings and the completion function\<close>

record rag_state =
  query :: string
  rewritten_query :: string
  retrieved_chunks :: "hit list"
  relevant_chunks :: "hit list"
  answer :: string
  sources :: "string list"
  rewrite_count :: int
  needs_rewrite :: bool

record settings =
  groq_temperature :: real
  top_k_chunks :: int
  max_rewrite_attempts :: int

datatype message = SystemMessage string | HumanMessage string

text \<open>
  The language model is outside the program. \<open>llm n temperature messages\<close> is the
  outcome of the invocation made when \<open>n\<close> invocations have been made before it in
  the run: \<open>Inr content\<close> is the content of the response, \<open>Inl e\<close> an exception with
  message \<open>e\<close>. Every node takes the number of invocations made so far and returns
  the number made after it.
\<close>

type_synonym completion = "nat \<Rightarrow> real \<Rightarrow> message list \<Rightarrow> string + string"

definition current_query :: "rag_state \<Rightarrow> string" where
  "current_query state = (if rewritten_query state \<noteq> [] then rewritten_query state else query state)"

subsection \<open>node\_retrieve\<close>

definition node_retrieve ::
  "(string \<Rightarrow> vec) \<Rightarrow> vector_store \<Rightarrow> int \<Rightarrow> rag_state \<Rightarrow> error + rag_state" where
  "node_retrieve encode vector_store top_k state =
     (let q = current_query state
      in case search encode vector_store q top_k of
           Inl err \<Rightarrow> Inl err
         | Inr chunks \<Rightarrow> Inr (state\<lparr>retrieved_chunks := chunks\<rparr>))"

subsection \<open>node\_grade\<close>

definition chunks_text :: "hit list \<Rightarrow> string" where
  "chunks_text chunks =
     join (nl @ ''---'' @ nl)
       (map (\<lambda>(i, c). ''['' @ str_nat i @ ''] '' @ take 350 (chunk_text (fst c)))
            (enumerate 0 chunks))"

definition grade_prompt :: "string \<Rightarrow> hit list \<Rightarrow> string" where
  "grade_prompt q chunks =
     ''You are a relevance grader. Given this question and document chunks, '' @
     ''output ONLY a comma-separated list of relevant chunk indices (0-based), or 'none'.'' @
     nl @ nl @ ''Question: '' @ q @ nl @ nl @ ''Chunks:'' @ nl @ chunks_text chunks @
     nl @ nl @ ''Relevant indices:''"

text \<open>
  The body of the \<open>try\<close> block after the invocation; \<open>None\<close> when it raises (the
  conversion of a token that passed \<open>isdigit\<close> fails).
\<close>

definition parse_relevant :: "string \<Rightarrow> hit list \<Rightarrow> hit list option" where
  "parse_relevant content chunks =
     (let raw = lower (strip content)
      in if raw = ''none'' then Some []
         else
           (case those (map (\<lambda>x. py_int (strip x))
                          (filter (\<lambda>x. isdigit (strip x)) (split_on CHR '','' raw))) of
              None \<Rightarrow> None
            | Some idxs \<Rightarrow> Some (map (\<lambda>i. chunks ! i) (filter (\<lambda>i. i < length chunks) idxs))))"

definition node_grade :: "completion \<Rightarrow> settings \<Rightarrow> rag_state \<times> nat \<Rightarrow> rag_state \<times> nat" where
  "node_grade llm cfg = (\<lambda>(state, n).
     let q = current_query state;
         chunks = retrieved_chunks state;
         max_rewrites = max_rewrite_attempts cfg
     in if chunks = [] then
          (state\<lparr>relevant_chunks := [], needs_rewrite := rewrite_count state < max_rewrites\<rparr>, n)
        else
          let prompt = grade_prompt q chunks;
              relevant =
                (case llm n 0 [HumanMessage prompt] of
                   Inl e \<Rightarrow> chunks
                 | Inr content \<Rightarrow>
                     (case parse_relevant content chunks of
                        None \<Rightarrow> chunks
                      | Some r \<Rightarrow> r));
              needs = (length relevant = 0 \<and> rewrite_count state < max_rewrites)
          in (state\<lparr>relevant_chunks := relevant, needs_rewrite := needs\<rparr>, n + 1))"

subsection \<open>node\_rewrite\<close>

definition rewrite_prompt :: "string \<Rightarrow> string" where
  "rewrite_prompt original =
     ''Rewrite this question to better match document terminology and improve retrieval. '' @
     ''Output ONLY the rewritten question.'' @ nl @ nl @ ''Original: '' @ original @ nl @
     ''Rewritten:''"

definition node_rewrite :: "completion \<Rightarrow> settings \<Rightarrow> rag_state \<times> nat \<Rightarrow> rag_state \<times> nat" where
  "node_rewrite llm cfg = (\<lambda>(state, n).
     let original = query state;
         prompt = rewrite_prompt original;
         rewritten =
           (case llm n (3 / 10) [HumanMessage prompt] of
              Inl e \<Rightarrow> original
            | Inr content \<Rightarrow> strip content)
     in (state\<lparr>rewritten_query := rewritten,
               rewrite_count := rewrite_count state + 1,
               needs_rewrite := False\<rparr>, n + 1))"

subsection \<open>node\_generate\<close>

definition not_found_answer :: string where
  "not_found_answer =
     ''I couldn't find relevant information in your documents to answer this question. '' @
     ''Try rephrasing, or upload documents that contain this information.''"

definition source_tag :: "hit \<Rightarrow> string" where
  "source_tag c =
     ''[Source: '' @ doc_name (fst c) @ '', chunk #'' @ str_nat (chunk_index (fst c) + 1) @ '']'' @
     nl @ chunk_text (fst c)"

definition context_of :: "hit list \<Rightarrow> string" where
  "context_of chunks = join (nl @ nl @ ''---'' @ nl @ nl) (map source_tag chunks)"

definition system_prompt :: string where
  "system_prompt =
     ''You are a helpful document Q&A assistant. '' @
     ''Answer the question using ONLY the provided document context. '' @
     ''Be concise and accurate. Cite the document name when referencing information. '' @
     ''If the answer isn't in the context, say so clearly.''"

definition human_prompt :: "string \<Rightarrow> string \<Rightarrow> string" where
  "human_prompt context q =
     ''Context:'' @ nl @ context @ nl @ nl @ ''Question: '' @ q @ nl @ nl @ ''Answer:''"

definition source_label :: "hit \<Rightarrow> string" where
  "source_label c = doc_name (fst c) @ '' (chunk #'' @ str_nat (chunk_index (fst c) + 1) @ '')''"

text \<open>
  The chunks used are the relevant ones, or the retrieved ones when no chunk is
  relevant. The source list is built from a set in the source; its order is not
  fixed there, and here it is the order of first occurrence.
\<close>

definition used_chunks :: "rag_state \<Rightarrow> hit list" where
  "used_chunks state =
     (if relevant_chunks state \<noteq> [] then relevant_chunks state else retrieved_chunks state)"

definition node_generate ::
  "completion \<Rightarrow> settings \<Rightarrow> rag_state \<times> nat \<Rightarrow> (error + rag_state) \<times> nat" where
  "node_generate llm cfg = (\<lambda>(state, n).
     let q = current_query state;
         chunks = used_chunks state
     in if chunks = [] then (Inr (state\<lparr>answer := not_found_answer, sources := []\<rparr>), n)
        else
          let context = context_of chunks;
              human = human_prompt context q
          in (case llm n (groq_temperature cfg) [SystemMessage system_prompt, HumanMessage human] of
                Inl e \<Rightarrow> (Inl (RuntimeError (''LLM generation failed: '' @ e)), n + 1)
              | Inr content \<Rightarrow>
                  (Inr (state\<lparr>answer := strip content,
                              sources := remdups (map source_label chunks)\<rparr>), n + 1)))"

subsection \<open>The graph and its execution\<close>

text \<open>
  The compiled graph has four nodes; \<open>END\<close> is the exit. \<open>successor\<close> gives the
  edges: retrieve to grade\_chunks, the conditional edge from grade\_chunks decided by
  \<open>route\<close>, rewrite\_query back to retrieve, generate to the exit.
\<close>

datatype node = Retrieve | Grade_chunks | Rewrite_query | Generate | END

definition route :: "rag_state \<Rightarrow> node" where
  "route state = (if needs_rewrite state then Rewrite_query else Generate)"

definition successor :: "node \<Rightarrow> rag_state \<Rightarrow> node" where
  "successor nd state =
     (case nd of
        Retrieve \<Rightarrow> Grade_chunks
      | Grade_chunks \<Rightarrow> route state
      | Rewrite_query \<Rightarrow> Retrieve
      | Generate \<Rightarrow> END
      | END \<Rightarrow> END)"

definition run_node ::
  "completion \<Rightarrow> (string \<Rightarrow> vec) \<Rightarrow> vector_store \<Rightarrow> settings \<Rightarrow> node \<Rightarrow>
     rag_state \<times> nat \<Rightarrow> (error + rag_state) \<times> nat" where
  "run_node llm encode vector_store cfg nd = (\<lambda>(state, n).
     case nd of
       Retrieve \<Rightarrow> (node_retrieve encode vector_store (top_k_chunks cfg) state, n)
     | Grade_chunks \<Rightarrow> (let (state', n') = node_grade llm cfg (state, n) in (Inr state', n'))
     | Rewrite_query \<Rightarrow> (let (state', n') = node_rewrite llm cfg (state, n) in (Inr state', n'))
     | Generate \<Rightarrow> node_generate llm cfg (state, n)
     | END \<Rightarrow> (Inr state, n))"

text \<open>
  An execution carries the pipeline state, the number of invocations of the language
  model made so far, the nodes executed so far in order, and the exception that ended
  the run, if one did. \<open>invoke_from \<dots> recursion_limit stop nd e\<close> executes the
  graph from node \<open>nd\<close> until node \<open>stop\<close> is the next to run, or a node raises; an
  execution that has raised executes nothing more. With \<open>stop = END\<close> this is the
  whole run; with \<open>stop = Generate\<close> it is the run interrupted before the generate
  node.

  The graph library stops a run that needs more steps than its limit and raises
  GraphRecursionError. \<open>run_rag\<close> invokes the graph without a configuration, so the
  limit in force is the one the library holds; it is the parameter
  \<open>recursion_limit\<close>, the number of nodes a run may execute.
\<close>

record exec =
  rag :: rag_state
  llm_calls :: nat
  visited :: "node list"
  raised :: "error option"

definition budget_left :: "settings \<Rightarrow> rag_state \<Rightarrow> nat" where
  "budget_left cfg state = nat (max_rewrite_attempts cfg - rewrite_count state)"

definition steps_bound :: "settings \<Rightarrow> node \<Rightarrow> rag_state \<Rightarrow> nat" where
  "steps_bound cfg nd state =
     (case nd of
        END \<Rightarrow> 0
      | Generate \<Rightarrow> 1
      | Grade_chunks \<Rightarrow> 4 * budget_left cfg state + 3
      | Retrieve \<Rightarrow> 4 * budget_left cfg state + 4
      | Rewrite_query \<Rightarrow> 4 * (budget_left cfg state - 1) + 5)"

function invoke_from ::
  "completion \<Rightarrow> (string \<Rightarrow> vec) \<Rightarrow> vector_store \<Rightarrow> settings \<Rightarrow> nat \<Rightarrow> node \<Rightarrow> node \<Rightarrow>
     exec \<Rightarrow> exec" where
  "invoke_from llm encode vector_store cfg recursion_limit stop nd e =
     (if nd = stop \<or> nd = END \<or> raised e \<noteq> None then e
      else if recursion_limit \<le> length (visited e) then e\<lparr>raised := Some GraphRecursionError\<rparr>
      else
        (case run_node llm encode vector_store cfg nd (rag e, llm_calls e) of
           (Inl err, n) \<Rightarrow> e\<lparr>llm_calls := n, visited := visited e @ [nd], raised := Some err\<rparr>
         | (Inr state', n) \<Rightarrow>
             invoke_from llm encode vector_store cfg recursion_limit stop (successor nd state')
               (e\<lparr>rag := state', llm_calls := n, visited := visited e @ [nd]\<rparr>)))"
  by pat_completeness auto
termination
  apply (relation
      "measure (\<lambda>(llm, encode, vector_store, cfg, recursion_limit, stop, nd, e).
                  steps_bound cfg nd (rag e))")
   apply simp
  subgoal for llm encode vector_store cfg recursion_limit stop nd e x state' n
    by (cases nd)
      (auto simp: run_node_def node_retrieve_def node_grade_def node_rewrite_def
        successor_def route_def steps_bound_def budget_left_def Let_def
        split: if_splits sum.splits option.splits prod.splits)
  done

declare invoke_from.simps [simp del]

subsection \<open>run\_rag\<close>

definition initial :: "string \<Rightarrow> rag_state" where
  "initial q =
     \<lparr>query = q, rewritten_query = [], retrieved_chunks = [], relevant_chunks = [],
      answer = [], sources = [], rewrite_count = 0, needs_rewrite = False\<rparr>"

definition graph_invoke ::
  "completion \<Rightarrow> (string \<Rightarrow> vec) \<Rightarrow> vector_store \<Rightarrow> settings \<Rightarrow> nat \<Rightarrow> rag_state \<Rightarrow> exec" where
  "graph_invoke llm encode vector_store cfg recursion_limit state =
     invoke_from llm encode vector_store cfg recursion_limit END Retrieve
       \<lparr>rag = state, llm_calls = 0, visited = [], raised = None\<rparr>"

text \<open>
  The result of \<open>run_rag\<close> without its latency field, which is read from the clock.
  An exception of the graph propagates to the caller.
\<close>

record rag_result =
  res_answer :: string
  res_sources :: "string list"
  res_rewritten_query :: string
  res_chunk_count :: nat

definition run_rag ::
  "completion \<Rightarrow> (string \<Rightarrow> vec) \<Rightarrow> nat \<Rightarrow> string \<Rightarrow> vector_store \<Rightarrow> settings \<Rightarrow>
     error + rag_result" where
  "run_rag llm encode recursion_limit q vector_store cfg =
     (let e = graph_invoke llm encode vector_store cfg recursion_limit (initial q)
      in case raised e of
           Some err \<Rightarrow> Inl err
         | None \<Rightarrow>
             Inr \<lparr>res_answer = answer (rag e), res_sources = sources (rag e),
                  res_rewritten_query = rewritten_query (rag e),
                  res_chunk_count = length (used_chunks (rag e))\<rparr>)"

section \<open>Properties named by the specification\<close>

text \<open>
  The metadata entry at a position, when the position is inside the list; a position is
  live when it has an entry and the entry is not marked deleted.
\<close>

definition lookup_meta :: "chunk_meta option list \<Rightarrow> int \<Rightarrow> chunk_meta option" where
  "lookup_meta ms i = (if 0 \<le> i \<and> i < int (length ms) then ms ! nat i else None)"

definition is_live :: "chunk_meta option list \<Rightarrow> int \<Rightarrow> bool" where
  "is_live ms i = (case lookup_meta ms i of None \<Rightarrow> False | Some m \<Rightarrow> \<not> deleted m)"

text \<open>The positions listed under some document, and the positions of live records.\<close>

definition owned_positions :: "vector_store \<Rightarrow> nat list" where
  "owned_positions s = concat (map snd (doc_map s))"

definition live_positions :: "vector_store \<Rightarrow> nat list" where
  "live_positions s = filter (\<lambda>i. is_live (meta s) (int i)) [0 ..< length (meta s)]"

text \<open>
  Search as the specification words it: nothing when no row of the index is live;
  otherwise the \<open>min (k * 4) ntotal\<close> nearest rows, without the rows that are deleted or
  have no metadata, in the order found, cut to \<open>k\<close>.
\<close>

definition live_rows :: "vector_store \<Rightarrow> nat list" where
  "live_rows s = filter (\<lambda>i. is_live (meta s) (int i)) [0 ..< ntotal s]"

definition survivors :: "chunk_meta option list \<Rightarrow> (real \<times> int) list \<Rightarrow> hit list" where
  "survivors ms found =
     concat (map (\<lambda>(d, i). case lookup_meta ms i of
                               None \<Rightarrow> []
                             | Some m \<Rightarrow> if deleted m then [] else [(m, d)]) found)"

definition search_spec :: "(string \<Rightarrow> vec) \<Rightarrow> vector_store \<Rightarrow> string \<Rightarrow> nat \<Rightarrow> hit list" where
  "search_spec encode s query_text k =
     (if live_rows s = [] then []
      else take k (survivors (meta s)
                     (nearest (index s) (encode query_text) (min (k * 4) (ntotal s)))))"

text \<open>
  The run interrupted before generate, and the messages the generate node sends.
\<close>

definition before_generate ::
  "completion \<Rightarrow> (string \<Rightarrow> vec) \<Rightarrow> vector_store \<Rightarrow> settings \<Rightarrow> nat \<Rightarrow> rag_state \<Rightarrow> exec" where
  "before_generate llm encode vector_store cfg recursion_limit state =
     invoke_from llm encode vector_store cfg recursion_limit Generate Retrieve
       \<lparr>rag = state, llm_calls = 0, visited = [], raised = None\<rparr>"

definition generate_messages :: "rag_state \<Rightarrow> message list" where
  "generate_messages state =
     [SystemMessage system_prompt,
      HumanMessage (human_prompt (context_of (used_chunks state)) (current_query state))]"

text \<open>
  Retrieval passes still possible from a node, given the rewrites left.
\<close>

definition passes_bound :: "settings \<Rightarrow> node \<Rightarrow> rag_state \<Rightarrow> nat" where
  "passes_bound cfg nd state =
     (case nd of
        Retrieve \<Rightarrow> budget_left cfg state + 1
      | Grade_chunks \<Rightarrow> budget_left cfg state
      | Rewrite_query \<Rightarrow> (budget_left cfg state - 1) + 1
      | Generate \<Rightarrow> 0
      | END \<Rightarrow> 0)"

text \<open>
  Nodes still to execute from a node before the generate node is the next to run, in
  the longest case, given the rewrites left.
\<close>

definition nodes_needed :: "settings \<Rightarrow> node \<Rightarrow> rag_state \<Rightarrow> nat" where
  "nodes_needed cfg nd state =
     (case nd of
        Retrieve \<Rightarrow> 3 * budget_left cfg state + 2
      | Grade_chunks \<Rightarrow> 3 * budget_left cfg state + 1
      | Rewrite_query \<Rightarrow> 3 * (budget_left cfg state - 1) + 3
      | Generate \<Rightarrow> 0
      | END \<Rightarrow> 0)"

text \<open>
  A language model whose answer to every grading invocation (one human message at
  temperature 0) reads ``none''.
\<close>

definition grades_none :: "completion \<Rightarrow> bool" where
  "grades_none llm = (\<forall>n p. \<exists>r. llm n 0 [HumanMessage p] = Inr r \<and> lower (strip r) = ''none'')"

text \<open>
  The tokens of a grading response, and the indices it names: the values of the tokens
  that are decimal numerals, in the order of the response.
\<close>

definition tokens :: "string \<Rightarrow> string list" where
  "tokens content = map strip (split_on CHR '','' (lower (strip content)))"

definition named_indices :: "string \<Rightarrow> nat list" where
  "named_indices content = List.map_filter py_int (tokens content)"

subsection \<open>Example data\<close>

definition length_encode :: "string \<Rightarrow> vec" where
  "length_encode t = [real (length t)]"

definition readded_store :: vector_store where
  "readded_store =
     (let s1 = fst (add_chunks length_encode empty_store ''a'' ''n'' [''x''])
      in fst (add_chunks length_encode s1 ''a'' ''n'' [''yy'']))"

definition default_settings :: settings where
  "default_settings = \<lparr>groq_temperature = 1 / 10, top_k_chunks = 5, max_rewrite_attempts = 2\<rparr>"

text \<open>The two results of a search in that store, nearest first, and a state holding them.\<close>

definition sample_hit :: hit where
  "sample_hit =
     (\<lparr>doc_id = ''a'', doc_name = ''n'', chunk_index = 0, chunk_text = ''x'', deleted = False\<rparr>, 0)"

definition other_hit :: hit where
  "other_hit =
     (\<lparr>doc_id = ''a'', doc_name = ''n'', chunk_index = 0, chunk_text = ''yy'', deleted = False\<rparr>, 1)"

definition sample_state :: rag_state where
  "sample_state = (initial ''q'')\<lparr>retrieved_chunks := [sample_hit, other_hit]\<rparr>"

section \<open>The vector store: results\<close>

subsection \<open>Re-adding a document\<close>

lemma readded_store_eq:
  "readded_store =
     \<lparr>index = [[1], [2]],
      meta = [Some \<lparr>doc_id = ''a'', doc_name = ''n'', chunk_index = 0, chunk_text = ''x'',
                    deleted = False\<rparr>,
              Some \<lparr>doc_id = ''a'', doc_name = ''n'', chunk_index = 0, chunk_text = ''yy'',
                    deleted = False\<rparr>],
      doc_map = [(''a'', [1])], del_count = 0\<rparr>"
  by (simp add: readded_store_def add_chunks_def empty_store_def ntotal_def pad_meta_def
      set_meta_def length_encode_def enumerate_eq_zip Let_def)

text \<open>
  C1. The claim: adding chunks under a document id that already has positions appends
  the new positions to the positions it had. The code assigns the new positions to the
  dictionary entry. Document \<open>a\<close> is added with one chunk and owns position 0; it is
  added again with one chunk, and the dictionary then lists position 1 alone for it
  (the claim requires 0 and 1).
\<close>

theorem add_chunks_readd_replaces_positions:
  "doc_positions (fst (add_chunks length_encode empty_store ''a'' ''n'' [''x''])) ''a'' = [0]
   \<and> doc_positions readded_store ''a'' = [1]"
  by (simp add: readded_store_eq doc_positions_def add_chunks_def empty_store_def ntotal_def
      Let_def)

text \<open>
  Rebuilding the index of that store lists both positions under the document again:
  \<open>rebuild_index\<close> appends to the entry of a document where \<open>add_chunks\<close> assigns.
\<close>

lemma rebuild_relists_both_positions:
  "doc_map (fst (rebuild_index length_encode readded_store)) = [(''a'', [0, 1])]"
  by (simp add: readded_store_eq rebuild_index_def alive_of_def List.map_filter_simps
      setdefault_append_def enumerate_eq_zip upt_rec Let_def)

text \<open>
  C2. The claim: in every state reached from the empty store by adding, deleting and
  rebuilding, the positions listed in the dictionary are exactly the positions of the
  records not marked deleted. After the two additions above both records are live, and
  the dictionary lists position 1 only.
\<close>

theorem readd_breaks_ownership_invariant:
  "set (owned_positions readded_store) = {1} \<and> set (live_positions readded_store) = {0, 1}"
  by (auto simp add: readded_store_eq owned_positions_def live_positions_def is_live_def
      lookup_meta_def upt_rec)

text \<open>
  C3. The claim: after \<open>delete_doc d\<close>, search returns no record of document \<open>d\<close>.
  After the two additions above, deleting document \<open>a\<close> marks position 1 only, and a
  search still returns the record of \<open>a\<close> at position 0.
\<close>

theorem search_after_delete_returns_deleted_document:
  "search length_encode (delete_doc readded_store ''a'') ''x'' 5 =
     Inr [(\<lparr>doc_id = ''a'', doc_name = ''n'', chunk_index = 0, chunk_text = ''x'',
            deleted = False\<rparr>, 0)]"
  by (simp add: readded_store_eq delete_doc_def doc_positions_def mark_deleted_def search_def
      index_search_def nearest_def l2sq_def ntotal_def length_encode_def upt_rec)

subsection \<open>Loading\<close>

text \<open>
  When a file is missing, or the index file is unreadable, the store stays as
  initialised.
\<close>

lemma load_missing_or_index_corrupt:
  "init Missing meta_file = empty_store"
  "init idx_file Missing = empty_store"
  "init Corrupt meta_file = empty_store"
  by (simp_all add: init_def load_def)

text \<open>
  C7. The claim: when either persisted file is missing or unreadable, the constructed
  store is empty. With a readable index file of one row and an unreadable metadata
  file, the constructed store keeps the row read from the index file and has no
  metadata (the claim requires an empty index).
\<close>

theorem load_keeps_index_when_metadata_corrupt:
  "init (Stored [[1]]) Corrupt = \<lparr>index = [[1]], meta = [], doc_map = [], del_count = 0\<rparr>"
  by (simp add: init_def load_def empty_store_def)

subsection \<open>Search\<close>

lemma survivors_Nil: "survivors ms [] = []"
  by (simp add: survivors_def)

lemma survivors_Cons:
  "survivors ms ((d, i) # xs) =
     (case lookup_meta ms i of
        None \<Rightarrow> []
      | Some m \<Rightarrow> if deleted m then [] else [(m, d)]) @ survivors ms xs"
  by (simp add: survivors_def)

text \<open>The loop with its \<open>break\<close> collects the first \<open>k\<close> survivors.\<close>

lemma search_loop_take:
  "int (length acc) < k \<Longrightarrow> search_loop ms k xs acc = take (nat k) (acc @ survivors ms xs)"
proof (induction xs arbitrary: acc)
  case Nil
  then show ?case by (simp add: survivors_Nil)
next
  case (Cons x xs)
  obtain d i where x: "x = (d, i)" by (cases x)
  show ?case
  proof (cases "lookup_meta ms i")
    case None
    with Cons x show ?thesis
      by (auto simp: survivors_Cons lookup_meta_def split: if_splits)
  next
    case (Some m)
    then have rng: "\<not> (i < 0 \<or> int (length ms) \<le> i)" and at: "ms ! nat i = Some m"
      by (auto simp: lookup_meta_def split: if_splits)
    show ?thesis
    proof (cases "deleted m")
      case True
      with Cons x Some rng at show ?thesis by (simp add: survivors_Cons)
    next
      case False
      show ?thesis
      proof (cases "k \<le> int (Suc (length acc))")
        case True
        with Cons.prems have "nat k = Suc (length acc)" by simp
        with x Some rng at False True show ?thesis by (simp add: survivors_Cons)
      next
        case more: False
        then have "int (length (acc @ [(m, d)])) < k" by simp
        from Cons.IH [OF this] x Some rng at False more show ?thesis
          by (simp add: survivors_Cons)
      qed
    qed
  qed
qed

lemma nearest_positions:
  assumes "(d, i) \<in> set (nearest rows q n)"
  shows "0 \<le> i \<and> nat i < length rows"
proof -
  from assms
  have "(d, i) \<in> set (sort_key fst (map (\<lambda>i. (l2sq q (rows ! i), int i)) [0 ..< length rows]))"
    unfolding nearest_def by (rule in_set_takeD)
  then show ?thesis by auto
qed

lemma nearest_length: "length (nearest rows q n) = min n (length rows)"
  by (simp add: nearest_def)

lemma nearest_sorted: "sorted (map fst (nearest rows q n))"
  by (simp add: nearest_def sorted_wrt_take take_map [symmetric])

lemma survivors_empty:
  "\<forall>(d, i) \<in> set found. \<not> is_live ms i \<Longrightarrow> survivors ms found = []"
  by (induction found) (auto simp: survivors_Nil survivors_Cons is_live_def split: option.splits)

lemma no_live_rows:
  assumes "live_rows s = []"
  shows "survivors (meta s) (nearest (index s) q n) = []"
proof (rule survivors_empty, clarify)
  fix d i
  assume "(d, i) \<in> set (nearest (index s) q n)"
  then have i: "0 \<le> i" "nat i < ntotal s"
    by (auto dest: nearest_positions simp: ntotal_def)
  then have "nat i \<in> set [0 ..< ntotal s]" by simp
  with assms have "\<not> is_live (meta s) (int (nat i))"
    unfolding live_rows_def filter_empty_conv by blast
  with i show "is_live (meta s) i \<Longrightarrow> False" by simp
qed

text \<open>
  C8. The claim: for every store, query and \<open>k\<close>, search returns the survivors of
  the nearest rows cut to \<open>k\<close>, and never raises. On a store with rows and \<open>k = 0\<close>
  the index is asked for no neighbour and refuses: search raises.
\<close>

theorem search_refuses_zero_results:
  "search length_encode readded_store ''q'' 0 = Inl AssertionError"
  by (simp add: search_def index_search_def readded_store_eq ntotal_def)

text \<open>
  C8, amended. For every store and query and every \<open>k\<close> of at least 1, \<open>search\<close>
  returns what the specification describes: nothing when no row of the index has a live
  record; otherwise the \<open>min (k * 4) ntotal\<close> rows nearest to the encoded query by
  squared Euclidean distance, taken over all rows, without those that are deleted or
  lack metadata, in order of distance, cut to \<open>k\<close>; never more than \<open>k\<close> results.
  For \<open>k\<close> of 0 or less, search raises on a store with rows and returns nothing on a
  store without rows.
\<close>

theorem search_meets_spec_for_positive_k:
  "(0 < k \<longrightarrow>
      search encode s query_text k = Inr (search_spec encode s query_text (nat k))
      \<and> int (length (search_spec encode s query_text (nat k))) \<le> k)
   \<and> (k \<le> 0 \<and> ntotal s \<noteq> 0 \<longrightarrow> search encode s query_text k = Inl AssertionError)
   \<and> (ntotal s = 0 \<longrightarrow> search encode s query_text k = Inr [])"
proof (intro conjI impI)
  assume k: "0 < k"
  let ?n = "min (nat k * 4) (ntotal s)"
  let ?found = "nearest (index s) (encode query_text) ?n"
  have loop: "search_loop (meta s) k ?found [] = take (nat k) (survivors (meta s) ?found)"
    using k search_loop_take [of "[]" k "meta s" ?found] by simp
  show "search encode s query_text k = Inr (search_spec encode s query_text (nat k))"
  proof (cases "ntotal s = 0")
    case True
    then show ?thesis by (simp add: search_def search_spec_def live_rows_def)
  next
    case False
    with k have pos: "\<not> min (k * 4) (int (ntotal s)) \<le> 0" by simp
    from k obtain m where m: "k = int m" by (cases k) auto
    have n: "nat (min (k * 4) (int (ntotal s))) = ?n"
    proof -
      have "int m * 4 = int (m * 4)" by simp
      then have "min (k * 4) (int (ntotal s)) = int (min (m * 4) (ntotal s))"
        unfolding m by (simp only: min_def of_nat_le_iff if_distrib [of int])
      then show ?thesis by (simp add: m)
    qed
    from False pos n loop no_live_rows [of s "encode query_text" ?n] show ?thesis
      by (simp add: search_def search_spec_def index_search_def Let_def)
  qed
  have "length (search_spec encode s query_text (nat k)) \<le> nat k"
    by (simp add: search_spec_def)
  with k show "int (length (search_spec encode s query_text (nat k))) \<le> k"
    by linarith
next
  assume "k \<le> 0 \<and> ntotal s \<noteq> 0"
  then show "search encode s query_text k = Inl AssertionError"
    by (simp add: search_def index_search_def Let_def min_def)
next
  assume "ntotal s = 0"
  then show "search encode s query_text k = Inr []"
    by (simp add: search_def)
qed

theorem search_meets_spec_for_positive_k_witness:
  "search length_encode readded_store ''q'' 1 =
     Inr [(\<lparr>doc_id = ''a'', doc_name = ''n'', chunk_index = 0, chunk_text = ''x'',
            deleted = False\<rparr>, 0)]
   \<and> search length_encode readded_store ''q'' (- 1) = Inl AssertionError
   \<and> search length_encode empty_store ''q'' 0 = Inr []"
  using search_meets_spec_for_positive_k [of 1 length_encode readded_store "''q''"]
    search_meets_spec_for_positive_k [of "- 1" length_encode readded_store "''q''"]
    search_meets_spec_for_positive_k [of 0 length_encode empty_store "''q''"]
  by (simp add: search_spec_def live_rows_def is_live_def lookup_meta_def survivors_def
      nearest_def l2sq_def readded_store_eq empty_store_def ntotal_def length_encode_def upt_rec)

section \<open>The pipeline: results\<close>

subsection \<open>Execution of the graph, node by node\<close>

lemma invoke_done:
  "nd = stop \<or> nd = END \<or> raised e \<noteq> None \<Longrightarrow>
   invoke_from llm encode vs cfg limit stop nd e = e"
  by (subst invoke_from.simps) simp

lemma invoke_out_of_steps:
  "nd \<noteq> stop \<Longrightarrow> nd \<noteq> END \<Longrightarrow> raised e = None \<Longrightarrow> limit \<le> length (visited e) \<Longrightarrow>
   invoke_from llm encode vs cfg limit stop nd e = e\<lparr>raised := Some GraphRecursionError\<rparr>"
  by (subst invoke_from.simps) simp

lemma invoke_Retrieve:
  "stop \<noteq> Retrieve \<Longrightarrow> raised e = None \<Longrightarrow> length (visited e) < limit \<Longrightarrow>
   invoke_from llm encode vs cfg limit stop Retrieve e =
     (case node_retrieve encode vs (top_k_chunks cfg) (rag e) of
        Inl err \<Rightarrow> e\<lparr>visited := visited e @ [Retrieve], raised := Some err\<rparr>
      | Inr state' \<Rightarrow>
          invoke_from llm encode vs cfg limit stop Grade_chunks
            (e\<lparr>rag := state', visited := visited e @ [Retrieve]\<rparr>))"
  by (subst invoke_from.simps) (simp add: run_node_def successor_def split: sum.splits)

lemma invoke_Grade:
  "stop \<noteq> Grade_chunks \<Longrightarrow> raised e = None \<Longrightarrow> length (visited e) < limit \<Longrightarrow>
   invoke_from llm encode vs cfg limit stop Grade_chunks e =
     invoke_from llm encode vs cfg limit stop (route (fst (node_grade llm cfg (rag e, llm_calls e))))
       (e\<lparr>rag := fst (node_grade llm cfg (rag e, llm_calls e)),
          llm_calls := snd (node_grade llm cfg (rag e, llm_calls e)),
          visited := visited e @ [Grade_chunks]\<rparr>)"
  by (subst invoke_from.simps) (simp add: run_node_def successor_def split: prod.splits)

lemma invoke_Rewrite:
  "stop \<noteq> Rewrite_query \<Longrightarrow> raised e = None \<Longrightarrow> length (visited e) < limit \<Longrightarrow>
   invoke_from llm encode vs cfg limit stop Rewrite_query e =
     invoke_from llm encode vs cfg limit stop Retrieve
       (e\<lparr>rag := fst (node_rewrite llm cfg (rag e, llm_calls e)),
          llm_calls := snd (node_rewrite llm cfg (rag e, llm_calls e)),
          visited := visited e @ [Rewrite_query]\<rparr>)"
  by (subst invoke_from.simps) (simp add: run_node_def successor_def split: prod.splits)

lemma invoke_Generate:
  "raised e = None \<Longrightarrow> length (visited e) < limit \<Longrightarrow>
   invoke_from llm encode vs cfg limit END Generate e =
     (case node_generate llm cfg (rag e, llm_calls e) of
        (Inl err, n) \<Rightarrow> e\<lparr>llm_calls := n, visited := visited e @ [Generate], raised := Some err\<rparr>
      | (Inr state', n) \<Rightarrow> e\<lparr>rag := state', llm_calls := n, visited := visited e @ [Generate]\<rparr>)"
  by (subst invoke_from.simps)
    (simp add: run_node_def successor_def invoke_done split: prod.splits sum.splits)

lemma rewrite_count_retrieve:
  "node_retrieve encode vs k st = Inr st' \<Longrightarrow> rewrite_count st' = rewrite_count st"
  by (auto simp: node_retrieve_def Let_def split: sum.splits)

lemma rewrite_count_grade [simp]:
  "rewrite_count (fst (node_grade llm cfg p)) = rewrite_count (fst p)"
  by (cases p) (simp add: node_grade_def Let_def)

lemma needs_rewrite_grade:
  "needs_rewrite (fst (node_grade llm cfg (st, n))) \<Longrightarrow> rewrite_count st < max_rewrite_attempts cfg"
  by (simp add: node_grade_def Let_def split: if_splits)

lemma rewrite_count_rewrite [simp]:
  "rewrite_count (fst (node_rewrite llm cfg p)) = rewrite_count (fst p) + 1"
  by (cases p) (simp add: node_rewrite_def Let_def)

lemma search_positive: "0 < k \<Longrightarrow> \<exists>hs. search encode vs q k = Inr hs"
  by (auto simp: search_def index_search_def Let_def min_def)

lemma retrieve_positive:
  "0 < k \<Longrightarrow> \<exists>st'. node_retrieve encode vs k st = Inr st'"
  using search_positive [of k encode vs "current_query st"]
  by (auto simp: node_retrieve_def Let_def)

text \<open>
  A whole run is the run up to the generate node followed by that node; when the first
  part raised, the second executes nothing.
\<close>

lemma invoke_split:
  "nd \<noteq> END \<Longrightarrow>
   invoke_from llm encode vs cfg limit END nd e =
     invoke_from llm encode vs cfg limit END Generate
       (invoke_from llm encode vs cfg limit Generate nd e)"
proof (induction llm encode vs cfg limit Generate nd e rule: invoke_from.induct)
  case (1 llm encode vs cfg limit nd e)
  show ?case
  proof (cases "nd = Generate \<or> raised e \<noteq> None")
    case True
    then show ?thesis by (auto simp: invoke_done)
  next
    case False
    then have live: "nd \<noteq> Generate" "raised e = None" by simp_all
    show ?thesis
    proof (cases "limit \<le> length (visited e)")
      case True
      with live 1 show ?thesis by (simp add: invoke_out_of_steps invoke_done)
    next
      case False
      then have lt: "length (visited e) < limit" by simp
      show ?thesis
      proof (cases nd)
        case Retrieve
        with 1 live False lt show ?thesis
          by (auto simp: invoke_Retrieve run_node_def successor_def invoke_done
              split: sum.splits)
      next
        case Grade_chunks
        with 1 live False lt show ?thesis
          by (simp add: invoke_Grade run_node_def successor_def route_def split: prod.splits)
      next
        case Rewrite_query
        with 1 live False lt show ?thesis
          by (simp add: invoke_Rewrite run_node_def successor_def split: prod.splits)
      next
        case Generate
        with live show ?thesis by simp
      next
        case END
        with 1 show ?thesis by simp
      qed
    qed
  qed
qed

text \<open>Every retrieval pass after the first is paid for by one rewrite.\<close>

lemma passes_bounded:
  "count_list (visited (invoke_from llm encode vs cfg limit Generate nd e)) Retrieve
     \<le> count_list (visited e) Retrieve + passes_bound cfg nd (rag e)"
proof (induction llm encode vs cfg limit Generate nd e rule: invoke_from.induct)
  case (1 llm encode vs cfg limit nd e)
  show ?case
  proof (cases "nd = Generate \<or> nd = END \<or> raised e \<noteq> None")
    case True
    then show ?thesis by (simp add: invoke_done)
  next
    case False
    then have live: "nd \<noteq> Generate" "nd \<noteq> END" "raised e = None" by simp_all
    show ?thesis
    proof (cases "limit \<le> length (visited e)")
      case True
      with live show ?thesis by (simp add: invoke_out_of_steps)
    next
      case False
      then have lt: "length (visited e) < limit" by simp
      show ?thesis
      proof (cases nd)
        case Retrieve
        show ?thesis
        proof (cases "node_retrieve encode vs (top_k_chunks cfg) (rag e)")
          case (Inl err)
          with Retrieve live lt show ?thesis
            by (simp add: invoke_Retrieve passes_bound_def)
        next
          case (Inr st)
          then have "rewrite_count st = rewrite_count (rag e)"
            by (rule rewrite_count_retrieve)
          with 1 Retrieve live False lt Inr show ?thesis
            by (simp add: invoke_Retrieve run_node_def successor_def passes_bound_def
                budget_left_def)
        qed
      next
        case Grade_chunks
        obtain st n where g: "node_grade llm cfg (rag e, llm_calls e) = (st, n)"
          by (cases "node_grade llm cfg (rag e, llm_calls e)")
        have rc: "rewrite_count st = rewrite_count (rag e)"
          using rewrite_count_grade [of llm cfg "(rag e, llm_calls e)"] g by simp
        have nr: "needs_rewrite st \<Longrightarrow> rewrite_count (rag e) < max_rewrite_attempts cfg"
          using needs_rewrite_grade [of llm cfg "rag e" "llm_calls e"] g by simp
        from 1 Grade_chunks live False lt g rc nr show ?thesis
          by (auto simp: invoke_Grade run_node_def successor_def route_def passes_bound_def
              budget_left_def)
      next
        case Rewrite_query
        obtain st n where g: "node_rewrite llm cfg (rag e, llm_calls e) = (st, n)"
          by (cases "node_rewrite llm cfg (rag e, llm_calls e)")
        have rc: "rewrite_count st = rewrite_count (rag e) + 1"
          using rewrite_count_rewrite [of llm cfg "(rag e, llm_calls e)"] g by simp
        from 1 Rewrite_query live False lt g rc show ?thesis
          by (auto simp: invoke_Rewrite run_node_def successor_def passes_bound_def
              budget_left_def)
      next
        case Generate
        with live show ?thesis by simp
      next
        case END
        with live show ?thesis by simp
      qed
    qed
  qed
qed

lemma generate_passes:
  "count_list (visited (invoke_from llm encode vs cfg limit END Generate e)) Retrieve =
     count_list (visited e) Retrieve"
proof (cases "raised e \<noteq> None")
  case True
  then show ?thesis by (simp add: invoke_done)
next
  case False
  then show ?thesis
    by (cases "limit \<le> length (visited e)")
      (simp_all add: invoke_out_of_steps invoke_Generate split: prod.splits sum.splits)
qed

text \<open>
  When retrieval does not raise and the step limit admits the nodes still needed, the
  run arrives before the generate node without an exception.
\<close>

lemma reaches_generate:
  "raised e = None \<Longrightarrow> 0 < top_k_chunks cfg \<Longrightarrow>
   length (visited e) + nodes_needed cfg nd (rag e) \<le> limit \<Longrightarrow>
   raised (invoke_from llm encode vs cfg limit Generate nd e) = None
   \<and> length (visited (invoke_from llm encode vs cfg limit Generate nd e))
       \<le> length (visited e) + nodes_needed cfg nd (rag e)"
proof (induction llm encode vs cfg limit Generate nd e rule: invoke_from.induct)
  case (1 llm encode vs cfg limit nd e)
  note live = \<open>raised e = None\<close> and k = \<open>0 < top_k_chunks cfg\<close>
    and fits = \<open>length (visited e) + nodes_needed cfg nd (rag e) \<le> limit\<close>
  show ?case
  proof (cases nd)
    case Retrieve
    with fits have lt: "length (visited e) < limit" by (simp add: nodes_needed_def)
    from retrieve_positive [OF k] obtain st
      where st: "node_retrieve encode vs (top_k_chunks cfg) (rag e) = Inr st" by blast
    then have rc: "rewrite_count st = rewrite_count (rag e)"
      by (rule rewrite_count_retrieve)
    from 1 Retrieve lt st rc show ?thesis
      by (simp add: invoke_Retrieve run_node_def successor_def nodes_needed_def
          budget_left_def)
  next
    case Grade_chunks
    with fits have lt: "length (visited e) < limit" by (simp add: nodes_needed_def)
    obtain st n where g: "node_grade llm cfg (rag e, llm_calls e) = (st, n)"
      by (cases "node_grade llm cfg (rag e, llm_calls e)")
    have rc: "rewrite_count st = rewrite_count (rag e)"
      using rewrite_count_grade [of llm cfg "(rag e, llm_calls e)"] g by simp
    have nr: "needs_rewrite st \<Longrightarrow> rewrite_count (rag e) < max_rewrite_attempts cfg"
      using needs_rewrite_grade [of llm cfg "rag e" "llm_calls e"] g by simp
    show ?thesis
    proof (cases "needs_rewrite st")
      case True
      with nr obtain b where b: "budget_left cfg (rag e) = Suc b"
        by (cases "budget_left cfg (rag e)") (simp_all add: budget_left_def)
      from rc have "budget_left cfg st = budget_left cfg (rag e)"
        by (simp add: budget_left_def)
      with 1 Grade_chunks lt g True b show ?thesis
        by (simp add: invoke_Grade run_node_def successor_def route_def nodes_needed_def)
    next
      case False
      with live Grade_chunks lt g show ?thesis
        by (simp add: invoke_Grade route_def invoke_done nodes_needed_def)
    qed
  next
    case Rewrite_query
    with fits have lt: "length (visited e) < limit" by (simp add: nodes_needed_def)
    obtain st n where g: "node_rewrite llm cfg (rag e, llm_calls e) = (st, n)"
      by (cases "node_rewrite llm cfg (rag e, llm_calls e)")
    have rc: "rewrite_count st = rewrite_count (rag e) + 1"
      using rewrite_count_rewrite [of llm cfg "(rag e, llm_calls e)"] g by simp
    then have "budget_left cfg st = budget_left cfg (rag e) - 1"
      by (simp add: budget_left_def)
    with 1 Rewrite_query lt g show ?thesis
      by (simp add: invoke_Rewrite run_node_def successor_def nodes_needed_def)
  next
    case Generate
    with live show ?thesis by (simp add: invoke_done)
  next
    case END
    with live show ?thesis by (simp add: invoke_done)
  qed
qed


subsection \<open>The retry loop\<close>

text \<open>
  When every grading answers ``none'', the nodes executed before generate are one
  retrieve, grade, rewrite cycle per rewrite left, and a last retrieve and grade.
\<close>

lemma generate_visited:
  "raised e = None \<Longrightarrow> length (visited e) < limit \<Longrightarrow>
   visited (invoke_from llm encode vs cfg limit END Generate e) = visited e @ [Generate]"
  by (simp add: invoke_Generate split: prod.splits sum.splits)

lemma graph_invoke_split:
  "graph_invoke llm encode vs cfg limit st =
     invoke_from llm encode vs cfg limit END Generate (before_generate llm encode vs cfg limit st)"
  unfolding graph_invoke_def before_generate_def by (rule invoke_split) simp

lemma parse_none: "lower (strip r) = ''none'' \<Longrightarrow> parse_relevant r chunks = Some []"
  by (simp add: parse_relevant_def)

lemma grade_none:
  assumes "grades_none llm"
  shows "fst (node_grade llm cfg (st, n)) =
           st\<lparr>relevant_chunks := [], needs_rewrite := rewrite_count st < max_rewrite_attempts cfg\<rparr>"
proof (cases "retrieved_chunks st = []")
  case True
  then show ?thesis by (simp add: node_grade_def)
next
  case False
  from assms obtain r
    where "llm n 0 [HumanMessage (grade_prompt (current_query st) (retrieved_chunks st))] = Inr r"
      and "lower (strip r) = ''none''"
    unfolding grades_none_def by blast
  with False show ?thesis
    by (simp add: node_grade_def Let_def parse_none)
qed

lemma none_trace:
  assumes "grades_none llm" and "0 < top_k_chunks cfg"
  shows "raised e = None \<Longrightarrow> budget_left cfg (rag e) = b \<Longrightarrow>
         length (visited e) + 3 * b + 2 \<le> limit \<Longrightarrow>
         visited (invoke_from llm encode vs cfg limit Generate Retrieve e) =
           visited e @ concat (replicate b [Retrieve, Grade_chunks, Rewrite_query])
             @ [Retrieve, Grade_chunks]"
proof (induction b arbitrary: e)
  case 0
  from retrieve_positive [OF assms(2)] obtain st
    where st: "node_retrieve encode vs (top_k_chunks cfg) (rag e) = Inr st" by blast
  then have "rewrite_count st = rewrite_count (rag e)" by (rule rewrite_count_retrieve)
  with 0 have "\<not> rewrite_count st < max_rewrite_attempts cfg"
    by (simp add: budget_left_def)
  with 0 st show ?case
    by (simp add: invoke_Retrieve invoke_Grade grade_none [OF assms(1)] route_def invoke_done)
next
  case (Suc b)
  from retrieve_positive [OF assms(2)] obtain st
    where st: "node_retrieve encode vs (top_k_chunks cfg) (rag e) = Inr st" by blast
  then have rc: "rewrite_count st = rewrite_count (rag e)" by (rule rewrite_count_retrieve)
  with Suc.prems have lt: "rewrite_count st < max_rewrite_attempts cfg"
    by (simp add: budget_left_def)
  let ?e1 = "e\<lparr>rag := st, visited := visited e @ [Retrieve]\<rparr>"
  let ?g = "node_grade llm cfg (rag ?e1, llm_calls ?e1)"
  let ?e2 = "?e1\<lparr>rag := fst ?g, llm_calls := snd ?g, visited := visited ?e1 @ [Grade_chunks]\<rparr>"
  let ?w = "node_rewrite llm cfg (rag ?e2, llm_calls ?e2)"
  let ?e3 = "?e2\<lparr>rag := fst ?w, llm_calls := snd ?w, visited := visited ?e2 @ [Rewrite_query]\<rparr>"
  have "route (fst ?g) = Rewrite_query"
    using lt by (simp add: grade_none [OF assms(1)] route_def)
  with Suc.prems st
  have step: "invoke_from llm encode vs cfg limit Generate Retrieve e =
              invoke_from llm encode vs cfg limit Generate Retrieve ?e3"
    by (simp add: invoke_Retrieve invoke_Grade invoke_Rewrite)
  have "budget_left cfg (rag ?e3) = b"
    using Suc.prems rc by (simp add: budget_left_def)
  moreover have "raised ?e3 = None" using Suc.prems by simp
  moreover have "length (visited ?e3) + 3 * b + 2 \<le> limit" using Suc.prems by simp
  ultimately show ?case
    unfolding step using Suc.IH [of ?e3] by simp
qed

subsection \<open>The run on an empty index\<close>

lemma retrieve_empty:
  "ntotal vs = 0 \<Longrightarrow> node_retrieve encode vs k st = Inr (st\<lparr>retrieved_chunks := []\<rparr>)"
  by (simp add: node_retrieve_def search_def)

lemma grade_empty:
  "retrieved_chunks st = [] \<Longrightarrow>
   node_grade llm cfg (st, n) =
     (st\<lparr>relevant_chunks := [], needs_rewrite := rewrite_count st < max_rewrite_attempts cfg\<rparr>, n)"
  by (simp add: node_grade_def)

lemma rewrite_calls: "snd (node_rewrite llm cfg (st, n)) = n + 1"
  by (simp add: node_rewrite_def Let_def)

lemma empty_index_loop:
  assumes "ntotal vs = 0"
  shows "raised e = None \<Longrightarrow> budget_left cfg (rag e) = b \<Longrightarrow>
         length (visited e) + 3 * b + 2 \<le> limit \<Longrightarrow>
         llm_calls (invoke_from llm encode vs cfg limit Generate Retrieve e) = llm_calls e + b
         \<and> count_list (visited (invoke_from llm encode vs cfg limit Generate Retrieve e)) Rewrite_query
             = count_list (visited e) Rewrite_query + b
         \<and> used_chunks (rag (invoke_from llm encode vs cfg limit Generate Retrieve e)) = []
         \<and> raised (invoke_from llm encode vs cfg limit Generate Retrieve e) = None
         \<and> length (visited (invoke_from llm encode vs cfg limit Generate Retrieve e))
             = length (visited e) + 3 * b + 2"
proof (induction b arbitrary: e)
  case 0
  then have ge: "\<not> rewrite_count (rag e) < max_rewrite_attempts cfg"
    by (simp add: budget_left_def)
  let ?s2 = "(rag e)\<lparr>retrieved_chunks := [], relevant_chunks := [], needs_rewrite := False\<rparr>"
  have "invoke_from llm encode vs cfg limit Generate Retrieve e =
          e\<lparr>rag := ?s2, visited := visited e @ [Retrieve, Grade_chunks]\<rparr>"
    using ge 0
    by (simp add: invoke_Retrieve invoke_Grade retrieve_empty [OF assms] grade_empty
        route_def invoke_done)
  with 0 show ?case
    by (simp add: used_chunks_def)
next
  case (Suc b)
  then have lt: "rewrite_count (rag e) < max_rewrite_attempts cfg"
    by (simp add: budget_left_def)
  let ?s2 = "(rag e)\<lparr>retrieved_chunks := [], relevant_chunks := [], needs_rewrite := True\<rparr>"
  let ?e3 = "e\<lparr>rag := fst (node_rewrite llm cfg (?s2, llm_calls e)),
               llm_calls := llm_calls e + 1,
               visited := visited e @ [Retrieve, Grade_chunks, Rewrite_query]\<rparr>"
  have step: "invoke_from llm encode vs cfg limit Generate Retrieve e =
              invoke_from llm encode vs cfg limit Generate Retrieve ?e3"
    using lt Suc.prems
    by (simp add: invoke_Retrieve invoke_Grade retrieve_empty [OF assms] grade_empty
        route_def invoke_Rewrite rewrite_calls)
  have "budget_left cfg (rag ?e3) = b"
    using Suc.prems by (simp add: budget_left_def)
  moreover have "raised ?e3 = None" using Suc.prems by simp
  moreover have "length (visited ?e3) + 3 * b + 2 \<le> limit" using Suc.prems by simp
  ultimately show ?case
    unfolding step using Suc.IH [of ?e3] by simp
qed

lemma empty_index_out_of_steps:
  assumes "ntotal vs = 0"
  shows "raised e = None \<Longrightarrow> budget_left cfg (rag e) = b \<Longrightarrow>
         limit < length (visited e) + 3 * b + 3 \<Longrightarrow> Generate \<notin> set (visited e) \<Longrightarrow>
         raised (invoke_from llm encode vs cfg limit END Retrieve e) = Some GraphRecursionError
         \<and> Generate \<notin> set (visited (invoke_from llm encode vs cfg limit END Retrieve e))"
proof (induction b arbitrary: e)
  case 0
  then have ge: "\<not> rewrite_count (rag e) < max_rewrite_attempts cfg"
    by (simp add: budget_left_def)
  consider "limit \<le> length (visited e)" | "limit = length (visited e) + 1"
    | "limit = length (visited e) + 2"
    using "0.prems" by linarith
  then show ?case
  proof cases
    case 1
    with 0 show ?thesis by (simp add: invoke_out_of_steps)
  next
    case 2
    with 0 show ?thesis
      by (simp add: invoke_Retrieve retrieve_empty [OF assms] invoke_out_of_steps)
  next
    case 3
    with 0 ge show ?thesis
      by (simp add: invoke_Retrieve invoke_Grade retrieve_empty [OF assms] grade_empty
          route_def invoke_out_of_steps)
  qed
next
  case (Suc b)
  then have lt: "rewrite_count (rag e) < max_rewrite_attempts cfg"
    by (simp add: budget_left_def)
  consider "limit \<le> length (visited e)" | "limit = length (visited e) + 1"
    | "limit = length (visited e) + 2" | "length (visited e) + 3 \<le> limit"
    by linarith
  then show ?case
  proof cases
    case 1
    with Suc.prems show ?thesis by (simp add: invoke_out_of_steps)
  next
    case 2
    with Suc.prems show ?thesis
      by (simp add: invoke_Retrieve retrieve_empty [OF assms] invoke_out_of_steps)
  next
    case 3
    with Suc.prems lt show ?thesis
      by (simp add: invoke_Retrieve invoke_Grade retrieve_empty [OF assms] grade_empty
          route_def invoke_out_of_steps)
  next
    case 4
    let ?s2 = "(rag e)\<lparr>retrieved_chunks := [], relevant_chunks := [], needs_rewrite := True\<rparr>"
    let ?e3 = "e\<lparr>rag := fst (node_rewrite llm cfg (?s2, llm_calls e)),
                 llm_calls := llm_calls e + 1,
                 visited := visited e @ [Retrieve, Grade_chunks, Rewrite_query]\<rparr>"
    have step: "invoke_from llm encode vs cfg limit END Retrieve e =
                invoke_from llm encode vs cfg limit END Retrieve ?e3"
      using lt Suc.prems 4
      by (simp add: invoke_Retrieve invoke_Grade retrieve_empty [OF assms] grade_empty
          route_def invoke_Rewrite rewrite_calls)
    have "budget_left cfg (rag ?e3) = b"
      using Suc.prems by (simp add: budget_left_def)
    moreover have "raised ?e3 = None" using Suc.prems by simp
    moreover have "limit < length (visited ?e3) + 3 * b + 3" using Suc.prems by simp
    moreover have "Generate \<notin> set (visited ?e3)" using Suc.prems by simp
    ultimately show ?thesis
      unfolding step using Suc.IH [of ?e3] by simp
  qed
qed

lemma empty_index_run:
  assumes "ntotal vs = 0" and "3 * nat (max_rewrite_attempts cfg) + 3 \<le> limit"
  shows "raised (graph_invoke llm encode vs cfg limit (initial q)) = None
     \<and> answer (rag (graph_invoke llm encode vs cfg limit (initial q))) = not_found_answer
     \<and> sources (rag (graph_invoke llm encode vs cfg limit (initial q))) = []
     \<and> used_chunks (rag (graph_invoke llm encode vs cfg limit (initial q))) = []
     \<and> llm_calls (graph_invoke llm encode vs cfg limit (initial q)) = nat (max_rewrite_attempts cfg)
     \<and> count_list (visited (graph_invoke llm encode vs cfg limit (initial q))) Rewrite_query
         = nat (max_rewrite_attempts cfg)"
proof -
  let ?e0 = "\<lparr>rag = initial q, llm_calls = 0, visited = [], raised = None\<rparr>"
  let ?r = "before_generate llm encode vs cfg limit (initial q)"
  have b: "budget_left cfg (rag ?e0) = nat (max_rewrite_attempts cfg)"
    by (simp add: budget_left_def initial_def)
  from assms(2) have fits: "length (visited ?e0) + 3 * nat (max_rewrite_attempts cfg) + 2 \<le> limit"
    by simp
  from empty_index_loop [OF assms(1) _ b fits, of llm encode]
  have r: "llm_calls ?r = nat (max_rewrite_attempts cfg)"
    "count_list (visited ?r) Rewrite_query = nat (max_rewrite_attempts cfg)"
    "used_chunks (rag ?r) = []" "raised ?r = None"
    "length (visited ?r) = 3 * nat (max_rewrite_attempts cfg) + 2"
    by (simp_all add: before_generate_def)
  with assms(2) have lt: "length (visited ?r) < limit" by simp
  from r lt show ?thesis
    unfolding graph_invoke_split
    by (simp add: invoke_Generate node_generate_def Let_def used_chunks_def split: if_splits)
qed

lemma empty_index_run_out_of_steps:
  assumes "ntotal vs = 0" and "limit < 3 * nat (max_rewrite_attempts cfg) + 3"
  shows "raised (graph_invoke llm encode vs cfg limit (initial q)) = Some GraphRecursionError
     \<and> Generate \<notin> set (visited (graph_invoke llm encode vs cfg limit (initial q)))"
proof -
  let ?e0 = "\<lparr>rag = initial q, llm_calls = 0, visited = [], raised = None\<rparr>"
  have b: "budget_left cfg (rag ?e0) = nat (max_rewrite_attempts cfg)"
    by (simp add: budget_left_def initial_def)
  from assms(2) have "limit < length (visited ?e0) + 3 * nat (max_rewrite_attempts cfg) + 3"
    by simp
  from empty_index_out_of_steps [OF assms(1) _ b this, of llm encode] show ?thesis
    by (simp add: graph_invoke_def)
qed

subsection \<open>Termination of the retry loop\<close>




subsection \<open>The answer on an empty index\<close>

text \<open>
  C5. The claim: on an index of zero vectors the run returns the not-found answer with
  no sources and never invokes the language model. With the default budget of two
  rewrites the run on the empty store invokes it twice, once in each rewrite.
\<close>

theorem empty_index_run_invokes_completion:
  "llm_calls (graph_invoke (\<lambda>n t ms. Inr ''anything else'') length_encode empty_store
      default_settings 25 (initial ''anything'')) = 2"
  using empty_index_run [of empty_store default_settings 25 "\<lambda>n t ms. Inr ''anything else''"
      length_encode "''anything''"]
  by (simp add: ntotal_def empty_store_def default_settings_def)

text \<open>
  C5, amended. On an index of zero vectors, for every query, language model and
  settings: when the step limit admits \<open>3 * budget + 3\<close> nodes, \<open>run_rag\<close> returns
  the not-found answer with no sources and a chunk count of 0, and the language model is
  invoked by the rewrite steps only, once in each, as many times as the rewrite budget
  allows (none when the budget is 0 or negative); when the step limit admits fewer
  nodes, \<open>run_rag\<close> raises GraphRecursionError.
\<close>

theorem empty_index_run_answers_not_found:
  "ntotal vs = 0 \<longrightarrow>
     (3 * nat (max_rewrite_attempts cfg) + 3 \<le> limit \<longrightarrow>
        run_rag llm encode limit q vs cfg =
          Inr \<lparr>res_answer = not_found_answer, res_sources = [],
               res_rewritten_query =
                 rewritten_query (rag (graph_invoke llm encode vs cfg limit (initial q))),
               res_chunk_count = 0\<rparr>
        \<and> llm_calls (graph_invoke llm encode vs cfg limit (initial q))
            = nat (max_rewrite_attempts cfg)
        \<and> count_list (visited (graph_invoke llm encode vs cfg limit (initial q))) Rewrite_query
            = nat (max_rewrite_attempts cfg))
   \<and> (limit < 3 * nat (max_rewrite_attempts cfg) + 3 \<longrightarrow>
        run_rag llm encode limit q vs cfg = Inl GraphRecursionError)"
  using empty_index_run [of vs cfg limit llm encode q]
    empty_index_run_out_of_steps [of vs limit cfg llm encode q]
  by (simp add: run_rag_def Let_def)

theorem empty_index_run_answers_not_found_witness:
  "ntotal empty_store = 0
   \<and> (\<exists>rq. run_rag (\<lambda>n t ms. Inl ''down'') length_encode 25 ''anything'' empty_store
               default_settings =
             Inr \<lparr>res_answer = not_found_answer, res_sources = [], res_rewritten_query = rq,
                  res_chunk_count = 0\<rparr>)
   \<and> llm_calls (graph_invoke (\<lambda>n t ms. Inl ''down'') length_encode empty_store default_settings
        25 (initial ''anything'')) = 2
   \<and> run_rag (\<lambda>n t ms. Inl ''down'') length_encode 8 ''anything'' empty_store default_settings
        = Inl GraphRecursionError"
  using empty_index_run_answers_not_found
      [of empty_store default_settings 25 "\<lambda>n t ms. Inl ''down''" length_encode "''anything''"]
    empty_index_run_answers_not_found
      [of empty_store default_settings 8 "\<lambda>n t ms. Inl ''down''" length_encode "''anything''"]
  by (simp add: ntotal_def empty_store_def default_settings_def)


subsection \<open>Failure of the generation\<close>

text \<open>
  C9. For every run: if the chunk list at the generate node is not empty and the
  invocation the node makes raises, then \<open>run_rag\<close> raises and returns no answer;
  and when the run has reached the generate node (no earlier node raised and the step
  limit admits one more node), the exception is the RuntimeError carrying the message
  of the failed invocation.
\<close>

theorem generation_failure_fails_run:
  "used_chunks (rag (before_generate llm encode vs cfg limit (initial q))) \<noteq> []
   \<and> llm (llm_calls (before_generate llm encode vs cfg limit (initial q))) (groq_temperature cfg)
         (generate_messages (rag (before_generate llm encode vs cfg limit (initial q)))) = Inl msg
   \<longrightarrow> (\<exists>err. run_rag llm encode limit q vs cfg = Inl err)
      \<and> (raised (before_generate llm encode vs cfg limit (initial q)) = None
          \<and> length (visited (before_generate llm encode vs cfg limit (initial q))) < limit
          \<longrightarrow> run_rag llm encode limit q vs cfg
                = Inl (RuntimeError (''LLM generation failed: '' @ msg)))"
proof
  let ?r = "before_generate llm encode vs cfg limit (initial q)"
  assume h: "used_chunks (rag ?r) \<noteq> []
   \<and> llm (llm_calls ?r) (groq_temperature cfg) (generate_messages (rag ?r)) = Inl msg"
  have entered: "run_rag llm encode limit q vs cfg
                   = Inl (RuntimeError (''LLM generation failed: '' @ msg))"
    if "raised ?r = None" and "length (visited ?r) < limit"
    using that h unfolding run_rag_def graph_invoke_split
    by (simp add: invoke_Generate node_generate_def generate_messages_def Let_def)
  have "\<exists>err. run_rag llm encode limit q vs cfg = Inl err"
  proof (cases "raised ?r")
    case (Some err)
    then show ?thesis
      unfolding run_rag_def graph_invoke_split by (simp add: invoke_done)
  next
    case None
    show ?thesis
    proof (cases "length (visited ?r) < limit")
      case True
      with None entered show ?thesis by simp
    next
      case False
      with None show ?thesis
        unfolding run_rag_def graph_invoke_split by (simp add: invoke_out_of_steps)
    qed
  qed
  with entered
  show "(\<exists>err. run_rag llm encode limit q vs cfg = Inl err)
      \<and> (raised ?r = None \<and> length (visited ?r) < limit
          \<longrightarrow> run_rag llm encode limit q vs cfg
                = Inl (RuntimeError (''LLM generation failed: '' @ msg)))"
    by simp
qed

lemma sample_search:
  "search length_encode readded_store ''q'' 5 = Inr [sample_hit, other_hit]"
  by (simp add: readded_store_eq search_def index_search_def nearest_def l2sq_def ntotal_def
      length_encode_def sample_hit_def other_hit_def upt_rec)

lemma failing_llm_before_generate:
  "before_generate (\<lambda>n t ms. Inl ''down'') length_encode readded_store default_settings 25
      (initial ''q'') =
   \<lparr>rag = (initial ''q'')\<lparr>retrieved_chunks := [sample_hit, other_hit],
                            relevant_chunks := [sample_hit, other_hit]\<rparr>,
    llm_calls = 1, visited = [Retrieve, Grade_chunks], raised = None\<rparr>"
  by (simp add: before_generate_def invoke_Retrieve invoke_Grade invoke_done node_retrieve_def
      node_grade_def route_def sample_search initial_def current_query_def
      default_settings_def Let_def)

theorem generation_failure_fails_run_witness:
  "run_rag (\<lambda>n t ms. Inl ''down'') length_encode 25 ''q'' readded_store default_settings =
     Inl (RuntimeError ''LLM generation failed: down'')"
  using generation_failure_fails_run
      [of "\<lambda>n t ms. Inl ''down''" length_encode readded_store default_settings 25 "''q''"
      "''down''"]
  by (simp add: failing_llm_before_generate used_chunks_def)


subsection \<open>Grading\<close>

lemma those_None: "those xs = None \<longleftrightarrow> None \<in> set xs"
  by (induction xs) (auto split: option.splits)

lemma those_Some_map_filter:
  "list_all (\<lambda>x. p x \<longrightarrow> f x \<noteq> None) xs \<Longrightarrow> (\<And>x y. f x = Some y \<Longrightarrow> p x) \<Longrightarrow>
   those (map f (filter p xs)) = Some (List.map_filter f xs)"
  by (induction xs) (auto simp: List.map_filter_simps split: option.splits)

lemma py_int_isdigit: "py_int x = Some y \<Longrightarrow> isdigit x"
  by (auto simp: py_int_def isdigit_def isdigit_char_def list_all_iff split: if_splits)

lemma digit_tokens:
  "map (\<lambda>x. py_int (strip x)) (filter (\<lambda>x. isdigit (strip x)) (split_on CHR '','' (lower (strip content))))
   = map py_int (filter isdigit (tokens content))"
  by (simp add: tokens_def filter_map comp_def)

lemma parse_relevant_tokens:
  "parse_relevant content chunks =
     (if lower (strip content) = ''none'' then Some []
      else case those (map py_int (filter isdigit (tokens content))) of
             None \<Rightarrow> None
           | Some idxs \<Rightarrow> Some (map (\<lambda>i. chunks ! i) (filter (\<lambda>i. i < length chunks) idxs)))"
  by (simp add: parse_relevant_def digit_tokens Let_def)

lemma grade_relevant:
  "retrieved_chunks st \<noteq> [] \<Longrightarrow>
   relevant_chunks (fst (node_grade llm cfg (st, n))) =
     (case llm n 0 [HumanMessage (grade_prompt (current_query st) (retrieved_chunks st))] of
        Inl e \<Rightarrow> retrieved_chunks st
      | Inr content \<Rightarrow>
          (case parse_relevant content (retrieved_chunks st) of
             None \<Rightarrow> retrieved_chunks st
           | Some r \<Rightarrow> r))"
  by (simp add: node_grade_def Let_def)

lemmas text_defs = tokens_def strip_def lower_def lower_char_def isspace_def isdigit_def
  isdigit_char_def isdecimal_char_def py_int_def named_indices_def int_max_str_digits_def

text \<open>
  C6. The claim: when the grading invocation raises or its response is malformed (not
  ``none'' and not a list of indices), all retrieved chunks are kept. The docstring of
  \<open>node_grade\<close> says the same of a parse error, and its \<open>except\<close> branch keeps all
  chunks. For two retrieved chunks and the response ``maybe'', no chunk is kept: the
  token fails the digit test and is dropped before it can raise.
\<close>

theorem grade_malformed_response_keeps_nothing:
  "retrieved_chunks sample_state = [sample_hit, other_hit]
   \<and> relevant_chunks (fst (node_grade (\<lambda>n t ms. Inr ''maybe'') default_settings (sample_state, 0)))
       = []"
  by (simp add: sample_state_def node_grade_def parse_relevant_tokens Let_def text_defs)

text \<open>
  The branch that keeps all chunks is taken when the invocation raises and when a token
  passes the digit test and its conversion raises; a response without a token passing
  the digit test keeps none.
\<close>

lemma grade_fallback_on_exception:
  "retrieved_chunks st \<noteq> [] \<longrightarrow>
     (llm n 0 [HumanMessage (grade_prompt (current_query st) (retrieved_chunks st))] = Inl err
        \<longrightarrow> relevant_chunks (fst (node_grade llm cfg (st, n))) = retrieved_chunks st)
   \<and> (llm n 0 [HumanMessage (grade_prompt (current_query st) (retrieved_chunks st))] = Inr content
        \<and> lower (strip content) \<noteq> ''none''
        \<and> list_ex (\<lambda>x. isdigit x \<and> py_int x = None) (tokens content)
        \<longrightarrow> relevant_chunks (fst (node_grade llm cfg (st, n))) = retrieved_chunks st)
   \<and> (llm n 0 [HumanMessage (grade_prompt (current_query st) (retrieved_chunks st))] = Inr content
        \<and> list_all (\<lambda>x. \<not> isdigit x) (tokens content)
        \<longrightarrow> relevant_chunks (fst (node_grade llm cfg (st, n))) = [])"
proof (intro impI conjI)
  assume ne: "retrieved_chunks st \<noteq> []"
  {
    assume "llm n 0 [HumanMessage (grade_prompt (current_query st) (retrieved_chunks st))] = Inl err"
    with ne show "relevant_chunks (fst (node_grade llm cfg (st, n))) = retrieved_chunks st"
      by (simp add: grade_relevant)
  next
    assume h: "llm n 0 [HumanMessage (grade_prompt (current_query st) (retrieved_chunks st))] = Inr content
        \<and> lower (strip content) \<noteq> ''none''
        \<and> list_ex (\<lambda>x. isdigit x \<and> py_int x = None) (tokens content)"
    then have "those (map py_int (filter isdigit (tokens content))) = None"
      by (force simp: those_None list_ex_iff image_iff)
    with h ne show "relevant_chunks (fst (node_grade llm cfg (st, n))) = retrieved_chunks st"
      by (simp add: grade_relevant parse_relevant_tokens)
  next
    assume h: "llm n 0 [HumanMessage (grade_prompt (current_query st) (retrieved_chunks st))] = Inr content
        \<and> list_all (\<lambda>x. \<not> isdigit x) (tokens content)"
    then have "filter isdigit (tokens content) = []"
      by (simp add: filter_empty_conv list_all_iff)
    with h ne show "relevant_chunks (fst (node_grade llm cfg (st, n))) = []"
      by (simp add: grade_relevant parse_relevant_tokens)
  }
qed

text \<open>
  A numeral of more digits than the interpreter converts passes the digit test and its
  conversion raises: all chunks are kept.
\<close>

lemma split_on_no_sep: "sep \<notin> set t \<Longrightarrow> split_on sep t = [t]"
  by (induction t) auto

lemma strip_replicate: "\<not> isspace c \<Longrightarrow> strip (replicate n c) = replicate n c"
  by (simp add: strip_def dropWhile_replicate)

lemma tokens_ones: "tokens (replicate n CHR ''1'') = [replicate n CHR ''1'']"
proof -
  have sp: "\<not> isspace CHR ''1''" by (simp add: isspace_def)
  have lo: "lower (replicate n CHR ''1'') = replicate n CHR ''1''"
    by (simp add: lower_def lower_char_def)
  have "CHR '','' \<notin> set (replicate n CHR ''1'')" by simp
  then show ?thesis
    unfolding tokens_def strip_replicate [OF sp] lo
    by (simp add: split_on_no_sep strip_replicate [OF sp])
qed

lemma long_numeral_keeps_all:
  assumes "int_max_str_digits < n" and "retrieved_chunks st \<noteq> []"
    and "llm k 0 [HumanMessage (grade_prompt (current_query st) (retrieved_chunks st))]
           = Inr (replicate n CHR ''1'')"
  shows "relevant_chunks (fst (node_grade llm cfg (st, k))) = retrieved_chunks st"
proof -
  let ?t = "replicate n CHR ''1''"
  from assms(1) have n: "0 < n" "4 < n" by (simp_all add: int_max_str_digits_def)
  have sp: "\<not> isspace CHR ''1''" by (simp add: isspace_def)
  have "length (lower (strip ?t)) = n" by (simp add: lower_def strip_replicate [OF sp])
  with n have ne: "lower (strip ?t) \<noteq> ''none''" by auto
  from n have dg: "isdigit ?t"
    by (simp add: isdigit_def isdigit_char_def isdecimal_char_def list_all_iff)
  from assms(1) have "py_int ?t = None" by (simp add: py_int_def)
  with dg have "list_ex (\<lambda>x. isdigit x \<and> py_int x = None) (tokens ?t)"
    by (simp add: tokens_ones)
  with grade_fallback_on_exception [where st = st and llm = llm and n = k and content = ?t
      and cfg = cfg] assms(2,3) ne show ?thesis
    by simp
qed

text \<open>
  C10. The claim: for every response, the relevant chunks are retrieved chunks, and
  index tokens out of range are silently dropped. For the response made of 4301 digits
  \<open>1\<close>, an index out of range, the token is not dropped: its conversion raises and both
  retrieved chunks are kept (with the token dropped, none would be).
\<close>

theorem oversized_index_token_keeps_all:
  "relevant_chunks
     (fst (node_grade (\<lambda>n t ms. Inr (replicate 4301 CHR ''1'')) default_settings (sample_state, 0)))
   = [sample_hit, other_hit]"
proof -
  have "relevant_chunks
     (fst (node_grade (\<lambda>n t ms. Inr (replicate 4301 CHR ''1'')) default_settings (sample_state, 0)))
    = retrieved_chunks sample_state"
    by (rule long_numeral_keeps_all [of 4301])
      (simp_all add: int_max_str_digits_def sample_state_def)
  then show ?thesis by (simp add: sample_state_def)
qed

text \<open>
  C10, amended. For every state, response and outcome of the grading invocation, the
  relevant chunks are chunks of the retrieved list, each taken at a position inside the
  list: nothing is fabricated, no position outside the list is read, and nothing raises.
  When every token that passes the digit test converts (a decimal numeral of at most
  4300 digits), the relevant chunks are the chunks at the indices the response names, in
  the order it names them, the indices outside the list being dropped; tokens that are
  not numerals name nothing.
\<close>

theorem grade_selects_only_retrieved:
  "set (relevant_chunks (fst (node_grade llm cfg (st, n)))) \<subseteq> set (retrieved_chunks st)
   \<and> (\<exists>js. list_all (\<lambda>j. j < length (retrieved_chunks st)) js
         \<and> relevant_chunks (fst (node_grade llm cfg (st, n))) = map (\<lambda>j. retrieved_chunks st ! j) js)
   \<and> (retrieved_chunks st \<noteq> []
       \<and> llm n 0 [HumanMessage (grade_prompt (current_query st) (retrieved_chunks st))] = Inr content
       \<and> lower (strip content) \<noteq> ''none''
       \<and> list_all (\<lambda>x. isdigit x \<longrightarrow> py_int x \<noteq> None) (tokens content)
       \<longrightarrow> relevant_chunks (fst (node_grade llm cfg (st, n))) =
             map (\<lambda>j. retrieved_chunks st ! j)
               (filter (\<lambda>j. j < length (retrieved_chunks st)) (named_indices content)))"
proof -
  let ?chunks = "retrieved_chunks st"
  let ?rel = "relevant_chunks (fst (node_grade llm cfg (st, n)))"
  have all: "list_all (\<lambda>j. j < length ?chunks) [0 ..< length ?chunks]
             \<and> ?chunks = map (\<lambda>j. ?chunks ! j) [0 ..< length ?chunks]"
    by (simp add: list_all_iff map_nth)
  have inside: "\<exists>js. list_all (\<lambda>j. j < length ?chunks) js \<and> ?rel = map (\<lambda>j. ?chunks ! j) js"
  proof (cases "?chunks = []")
    case True
    then have "?rel = []" by (simp add: node_grade_def)
    then show ?thesis by (intro exI [of _ "[]"]) simp
  next
    case False
    show ?thesis
    proof (cases "llm n 0 [HumanMessage (grade_prompt (current_query st) ?chunks)]")
      case (Inl e)
      with False have "?rel = ?chunks" by (simp add: grade_relevant)
      with all show ?thesis by (intro exI [of _ "[0 ..< length ?chunks]"]) simp
    next
      case (Inr content)
      show ?thesis
      proof (cases "parse_relevant content ?chunks")
        case None
        with False Inr have "?rel = ?chunks" by (simp add: grade_relevant)
        with all show ?thesis by (intro exI [of _ "[0 ..< length ?chunks]"]) simp
      next
        case (Some r)
        with False Inr have rel: "?rel = r" by (simp add: grade_relevant)
        from Some have "\<exists>idxs. r = map (\<lambda>i. ?chunks ! i) (filter (\<lambda>i. i < length ?chunks) idxs)"
          by (cases "lower (strip content) = ''none''")
            (auto simp: parse_relevant_tokens split: option.splits intro: exI [of _ "[]"])
        then obtain idxs
          where "r = map (\<lambda>i. ?chunks ! i) (filter (\<lambda>i. i < length ?chunks) idxs)" ..
        with rel show ?thesis
          by (intro exI [of _ "filter (\<lambda>i. i < length ?chunks) idxs"]) (simp add: list_all_iff)
      qed
    qed
  qed
  then have subset: "set ?rel \<subseteq> set ?chunks"
    by (auto simp: list_all_iff)
  have named: "retrieved_chunks st \<noteq> []
       \<and> llm n 0 [HumanMessage (grade_prompt (current_query st) (retrieved_chunks st))] = Inr content
       \<and> lower (strip content) \<noteq> ''none''
       \<and> list_all (\<lambda>x. isdigit x \<longrightarrow> py_int x \<noteq> None) (tokens content)
       \<longrightarrow> relevant_chunks (fst (node_grade llm cfg (st, n))) =
             map (\<lambda>j. retrieved_chunks st ! j)
               (filter (\<lambda>j. j < length (retrieved_chunks st)) (named_indices content))"
  proof
    assume h: "retrieved_chunks st \<noteq> []
       \<and> llm n 0 [HumanMessage (grade_prompt (current_query st) (retrieved_chunks st))] = Inr content
       \<and> lower (strip content) \<noteq> ''none''
       \<and> list_all (\<lambda>x. isdigit x \<longrightarrow> py_int x \<noteq> None) (tokens content)"
    then have "those (map py_int (filter isdigit (tokens content))) = Some (named_indices content)"
      unfolding named_indices_def
      by (intro those_Some_map_filter) (auto intro: py_int_isdigit)
    with h show "relevant_chunks (fst (node_grade llm cfg (st, n))) =
             map (\<lambda>j. retrieved_chunks st ! j)
               (filter (\<lambda>j. j < length (retrieved_chunks st)) (named_indices content))"
      by (simp add: grade_relevant parse_relevant_tokens)
  qed
  from subset inside named show ?thesis by blast
qed

theorem grade_selects_only_retrieved_witness:
  "relevant_chunks
     (fst (node_grade (\<lambda>n t ms. Inr ''1, 0,7,x,-1'') default_settings (sample_state, 0)))
   = [other_hit, sample_hit]"
  using grade_selects_only_retrieved [where st = sample_state
      and llm = "\<lambda>n t ms. Inr ''1, 0,7,x,-1''" and n = 0
      and content = "''1, 0,7,x,-1''" and cfg = default_settings]
  by (simp add: sample_state_def text_defs List.map_filter_simps)

end
